theory Spec2Isabelle
  imports Main "HOL-Library.Code_Target_Nat"
begin

section \<open>Data model of \<open>Client.ts\<close>\<close>

text \<open>
  A Pushover message as declared by \<open>IPushoverMessage\<close>. The identifier field is called
  \<open>id\<close> in the source; it is \<open>id_msg\<close> here because \<open>id\<close> is the identity function of
  HOL. The source tests \<open>message.icon\<close> for truthiness, so the field is optional here:
  \<open>None\<close> is an absent icon, \<open>Some []\<close> the empty string.
\<close>

record IPushoverMessage =
  id_msg :: int
  title :: string
  message :: string
  app :: string
  aid :: int
  icon :: "string option"
  date :: int
  priority :: int
  acked :: int
  umid :: int

text \<open>
  An optional property of the settings object: the key is absent, or it is present with
  the value \<open>undefined\<close>, with \<open>null\<close> (a settings file is JSON), or with a value of its
  type.
\<close>

datatype 'a field = Absent | Undefined | Null | Given 'a

record ISettings =
  deviceId :: string
  secret :: string
  gotifyHost :: string
  gotifyToken :: string
  imageCache :: "string field"
  wsHost :: "string field"
  iconHost :: "string field"
  apiHost :: "string field"
  apiPath :: "string field"
  keepAliveTimeout :: "int field"

text \<open>
  JavaScript numbers as far as the timer arithmetic needs them: an integer number of
  milliseconds, or \<open>NaN\<close>, which is what arithmetic on \<open>undefined\<close> gives; \<open>null\<close>
  counts as 0.
\<close>

datatype jsnum = Num int | NaN

fun jsub :: "jsnum \<Rightarrow> jsnum \<Rightarrow> jsnum" where
  "jsub (Num a) (Num b) = Num (a - b)"
| "jsub _ _ = NaN"

definition of_field :: "int field \<Rightarrow> jsnum" where
  "of_field v = (case v of Absent \<Rightarrow> NaN | Undefined \<Rightarrow> NaN | Null \<Rightarrow> Num 0 | Given n \<Rightarrow> Num n)"

definition of_unset :: "int option \<Rightarrow> jsnum" where
  "of_unset v = (case v of None \<Rightarrow> NaN | Some n \<Rightarrow> Num n)"

text \<open>
  The delay Node.js runs a timer with, in milliseconds: the delay handed to
  \<open>setTimeout\<close> when that is a number from 1 to \<open>2^31 - 1\<close>, and 1 otherwise.
\<close>

definition timer_delay :: "jsnum \<Rightarrow> nat" where
  "timer_delay d =
     (case d of
        Num n \<Rightarrow> if 1 \<le> n \<and> n \<le> 2147483647 then nat n else 1
      | NaN \<Rightarrow> 1)"

text \<open>The HTTP requests the client issues, by endpoint.\<close>

datatype request =
    GetMessages
  | PostGotify string string int
  | PostUpdateHighest int
  | GetIcon string

text \<open>Everything the client does to the outside, in the order it does it.\<close>

datatype action =
    Log string
  | LogNum string int
  | LogJson IPushoverMessage
  | LogError string
  | LogErrorNum string int
  | Request request
  | NewSocket nat
  | Send nat string
  | Terminate nat
  | Stat string
  | Unhandled
  | Uncaught string

datatype timer_kind = KeepAliveTimer | RetryTimer

text \<open>
  Who awaits the promise of \<open>refreshMessages\<close>: the \<open>open\<close> handler, which goes on with
  its remaining statements once the promise resolves, or the \<open>message\<close> handler, which
  returns.
\<close>

datatype cont = ResumeOpen | NoCont

text \<open>
  The asynchronous operations that can be outstanding, each with what its continuation
  closes over: the request for the message list, the acknowledgment request, the
  \<open>stat\<close> of \<open>fileExists\<close>, an \<open>await\<close> on a promise that is already resolved, the icon
  download, the post to Gotify, and the \<open>open\<close> handler waiting to go on.
\<close>

datatype pending =
    PRefresh cont
  | PAck cont
  | PStat IPushoverMessage string string
  | PResolved IPushoverMessage "string option"
  | PIcon IPushoverMessage string string
  | PNotify
  | PResume

text \<open>
  How an outstanding operation ends: the request's \<open>error\<close> event with the error text;
  the response's \<open>end\<close> event with the status code, the body text \<open>finalData\<close> and what
  reading \<open>JSON.parse(finalData).messages\<close> as the message list gives (\<open>Inr\<close> the list, or
  \<open>Inl\<close> the text of the error thrown on the way; only the request for the message list
  looks at it); or plain completion of something that carries no data from outside. For
  the icon download, \<open>Response\<close> is a response that has been written to the cache file,
  and \<open>WriteThrown\<close> is a response for which \<open>createWriteStream\<close> throws at once, with
  the text of the error.
\<close>

datatype outcome =
    NetError string
  | Response int string "string + IPushoverMessage list"
  | Settled
  | WriteThrown string

text \<open>
  The fields of class \<open>Client\<close>, then the part of the Node.js runtime the class acts on:
  the clock read by \<open>Date.now()\<close>, the sockets that have listeners attached, the pending
  timers with kind and delay as passed to \<open>setTimeout\<close>, the outstanding operations, the
  files of the image cache, and the trace of actions; then the monotonic clock that the
  timers run on, in milliseconds since the process started, for every timer armed so far
  the reading of that clock from which it may fire (the newest first), and whether the
  process has ended. Sockets, timers and operations are identified by numbers handed out
  in sequence.
\<close>

record Client =
  settings :: ISettings
  wsClient :: "nat option"
  lastConnection :: "int option"
  keepAlive :: "nat option"
  retry :: "nat option"
  lastMessageId :: int

record runtime = Client +
  now :: int
  nextSocket :: nat
  listening :: "nat list"
  timers :: "(nat \<times> timer_kind \<times> jsnum) list"
  nextTimer :: nat
  inflight :: "(nat \<times> pending) list"
  nextOp :: nat
  files :: "string list"
  trace :: "action list"
  uptime :: nat
  due :: "(nat \<times> nat) list"
  halted :: bool

section \<open>Operations\<close>

text \<open>
  Each method of the class is a function on the state, named as in the source. A method
  that suspends at an \<open>await\<close> or in a callback is cut there: the part before the cut
  registers an outstanding operation, and \<open>complete\<close> below holds the parts that run
  when operations end.

  What is left to the environment: a request is identified by its endpoint and payload,
  while hosts, paths, headers and encodings are not modelled. Creating a socket, issuing
  a request, and sending on a socket that is present are taken to succeed, and every
  request and every \<open>stat\<close> is taken to end, with an \<open>end\<close> or an \<open>error\<close> event. Only
  the client changes the cache directory. A continuation that waits for a promise runs
  as an event of its own, so the model admits every order in which the event loop of
  Node.js can run continuations.
\<close>

text \<open>
  The constructor: \<open>Object.assign\<close> of the defaults and the given settings. A key that is
  present in the given settings replaces the default, whatever its value.
\<close>

definition or_default :: "'a \<Rightarrow> 'a field \<Rightarrow> 'a field" where
  "or_default d v = (case v of Absent \<Rightarrow> Given d | _ \<Rightarrow> v)"

definition assign_defaults :: "ISettings \<Rightarrow> ISettings" where
  "assign_defaults st = st
     \<lparr> wsHost := or_default ''wss://client.pushover.net/push'' (wsHost st),
       iconHost := or_default ''client.pushover.net'' (iconHost st),
       apiHost := or_default ''api.pushover.net'' (apiHost st),
       apiPath := or_default ''/1'' (apiPath st),
       keepAliveTimeout := or_default 60000 (keepAliveTimeout st) \<rparr>"

definition new_Client :: "ISettings \<Rightarrow> runtime" where
  "new_Client st =
     \<lparr> settings = assign_defaults st, wsClient = None, lastConnection = None,
       keepAlive = None, retry = None, lastMessageId = 0,
       now = 0, nextSocket = 0, listening = [], timers = [], nextTimer = 0,
       inflight = [], nextOp = 0, files = [], trace = [],
       uptime = 0, due = [], halted = False \<rparr>"

definition emit :: "action \<Rightarrow> runtime \<Rightarrow> runtime" where
  "emit a s = s\<lparr>trace := trace s @ [a]\<rparr>"

definition start :: "pending \<Rightarrow> runtime \<Rightarrow> runtime" where
  "start p s = s\<lparr>inflight := inflight s @ [(nextOp s, p)], nextOp := Suc (nextOp s)\<rparr>"

definition setTimeout :: "timer_kind \<Rightarrow> jsnum \<Rightarrow> runtime \<Rightarrow> nat \<times> runtime" where
  "setTimeout k d s =
     (nextTimer s,
      s\<lparr>timers := timers s @ [(nextTimer s, k, d)], nextTimer := Suc (nextTimer s),
        due := (nextTimer s, uptime s + timer_delay d) # due s\<rparr>)"

definition clearTimeout :: "nat option \<Rightarrow> runtime \<Rightarrow> runtime" where
  "clearTimeout h s =
     (case h of None \<Rightarrow> s
      | Some t \<Rightarrow> s\<lparr>timers := filter (\<lambda>e. fst e \<noteq> t) (timers s)\<rparr>)"

text \<open>\<open>connect\<close>, up to the registration of the four listeners.\<close>

definition connect :: "runtime \<Rightarrow> runtime" where
  "connect s =
     (if wsClient s \<noteq> None then s
      else emit (NewSocket (nextSocket s))
             (s\<lparr>wsClient := Some (nextSocket s), lastConnection := Some (now s),
                nextSocket := Suc (nextSocket s),
                listening := listening s @ [nextSocket s]\<rparr>))"

definition resetKeepAlive :: "runtime \<Rightarrow> runtime" where
  "resetKeepAlive s =
     (let s1 = clearTimeout (keepAlive s) s;
          (h, s2) = setTimeout KeepAliveTimer (of_field (keepAliveTimeout (settings s1))) s1
      in s2\<lparr>keepAlive := Some h\<rparr>)"

text \<open>
  \<open>reconnect\<close>. Inside the \<open>try\<close>, a missing \<open>wsClient\<close> raises a TypeError at the first
  statement, which the empty \<open>catch\<close> swallows.
\<close>

definition reconnect :: "runtime \<Rightarrow> runtime" where
  "reconnect s =
     (let s1 = clearTimeout (keepAlive s) s;
          s2 = (case wsClient s1 of
                  None \<Rightarrow> s1
                | Some w \<Rightarrow>
                    (emit (Terminate w) (s1\<lparr>listening := removeAll w (listening s1)\<rparr>))
                      \<lparr>wsClient := None\<rparr>);
          (h, s3) = setTimeout RetryTimer
                      (jsub (of_field (keepAliveTimeout (settings s2)))
                            (jsub (Num (now s2)) (of_unset (lastConnection s2)))) s2
      in s3\<lparr>retry := Some h\<rparr>)"

text \<open>The two timer callbacks.\<close>

definition keepAlive_expired :: "runtime \<Rightarrow> runtime" where
  "keepAlive_expired s =
     reconnect (emit (Log ''Did not receive keep alive message in time, reconnecting'') s)"

definition retry_expired :: "runtime \<Rightarrow> runtime" where
  "retry_expired s = connect (clearTimeout (retry s) s)"

definition refreshMessages :: "cont \<Rightarrow> runtime \<Rightarrow> runtime" where
  "refreshMessages k s =
     start (PRefresh k) (emit (Request GetMessages) (emit (Log ''Refreshing messages'') s))"

text \<open>
  The rest of the \<open>open\<close> handler after \<open>await this.refreshMessages()\<close>. With no
  \<open>wsClient\<close> the \<open>send\<close> raises a TypeError inside the async handler, which nothing
  catches.
\<close>

definition open_resumed :: "runtime \<Rightarrow> runtime" where
  "open_resumed s =
     (let s1 = resetKeepAlive (emit (Log ''WebSocket connected, waiting for messages'') s)
      in case wsClient s1 of
           None \<Rightarrow> emit Unhandled s1
         | Some w \<Rightarrow>
             emit (Send w (''login:'' @ deviceId (settings s1) @ '':'' @ secret (settings s1)
                           @ [CHR 0x0A])) s1)"

text \<open>Resolving the promise of \<open>refreshMessages\<close> wakes whoever awaits it.\<close>

definition settle :: "cont \<Rightarrow> runtime \<Rightarrow> runtime" where
  "settle k s = (case k of NoCont \<Rightarrow> s | ResumeOpen \<Rightarrow> start PResume s)"

fun gotifyPriority :: "int \<Rightarrow> int" where
  "gotifyPriority pushoverPriority =
     (if pushoverPriority = - 2 then 1
      else if pushoverPriority = - 1 then 3
      else if pushoverPriority = 0 then 5
      else if pushoverPriority = 1 then 10
      else 5)"

definition notify :: "IPushoverMessage \<Rightarrow> string option \<Rightarrow> runtime \<Rightarrow> runtime" where
  "notify m imageFile s =
     start PNotify
       (emit (Request (PostGotify (title m) (message m) (gotifyPriority (priority m))))
          (emit (LogJson m) s))"

definition updateHead :: "cont \<Rightarrow> IPushoverMessage option \<Rightarrow> runtime \<Rightarrow> runtime" where
  "updateHead k msg s =
     (case msg of
        None \<Rightarrow> settle k s
      | Some m \<Rightarrow>
          if id_msg m \<le> lastMessageId s then settle k s
          else start (PAck k)
                 (emit (Request (PostUpdateHighest (id_msg m)))
                    (emit (LogNum ''Updating head position to '' (id_msg m))
                       (s\<lparr>lastMessageId := id_msg m\<rparr>))))"

text \<open>
  \<open>Path.join\<close> of the cache directory and a file name, for POSIX paths: the arguments
  that are not empty are joined with a slash, and the result is normalised. Normalising
  drops empty segments and \<open>.\<close> segments, lets a \<open>..\<close> segment take away the segment
  before it (a relative path keeps the \<open>..\<close> segments that lead above its start, an
  absolute path drops them), and keeps a leading and a trailing slash.
\<close>

fun split_slash :: "string \<Rightarrow> string list" where
  "split_slash [] = [[]]"
| "split_slash (c # cs) =
     (if c = CHR ''/'' then [] # split_slash cs
      else (case split_slash cs of
              [] \<Rightarrow> [[c]]
            | seg # segs \<Rightarrow> (c # seg) # segs))"

fun normalize_segments :: "bool \<Rightarrow> string list \<Rightarrow> string list \<Rightarrow> string list" where
  "normalize_segments allowAboveRoot res [] = rev res"
| "normalize_segments allowAboveRoot res (seg # segs) =
     (if seg = [] \<or> seg = ''.'' then normalize_segments allowAboveRoot res segs
      else if seg = ''..'' then
        (case res of
           [] \<Rightarrow>
             normalize_segments allowAboveRoot (if allowAboveRoot then [seg] else []) segs
         | lastSegment # parents \<Rightarrow>
             if lastSegment = ''..''
             then normalize_segments allowAboveRoot (if allowAboveRoot then seg # res else res) segs
             else normalize_segments allowAboveRoot parents segs)
      else normalize_segments allowAboveRoot (seg # res) segs)"

fun join_slash :: "string list \<Rightarrow> string" where
  "join_slash [] = []"
| "join_slash [seg] = seg"
| "join_slash (seg # segs) = seg @ ''/'' @ join_slash segs"

definition normalize :: "string \<Rightarrow> string" where
  "normalize path =
     (case path of
        [] \<Rightarrow> ''.''
      | c # cs \<Rightarrow>
          (let isAbsolute = (c = CHR ''/'');
               trailingSeparator = (last path = CHR ''/'');
               body = join_slash (normalize_segments (\<not> isAbsolute) [] (split_slash path))
           in if body = []
              then (if isAbsolute then ''/'' else if trailingSeparator then ''./'' else ''.'')
              else (if isAbsolute then ''/'' else []) @ body
                   @ (if trailingSeparator then ''/'' else [])))"

definition path_join :: "string \<Rightarrow> string \<Rightarrow> string" where
  "path_join dir name =
     normalize (if dir = [] then name else if name = [] then dir else dir @ ''/'' @ name)"

text \<open>
  \<open>fetchImage\<close> up to its first suspension, on behalf of the message whose forwarding
  awaits it. An \<open>imageCache\<close> that is absent, \<open>undefined\<close>, \<open>null\<close> or empty is falsy.
\<close>

definition fetchImage :: "IPushoverMessage \<Rightarrow> string \<Rightarrow> runtime \<Rightarrow> runtime" where
  "fetchImage m imageName s =
     (case imageCache (settings s) of
        Given dir \<Rightarrow>
          if dir = [] then start (PResolved m None) s
          else start (PStat m imageName (path_join dir imageName))
                 (emit (Stat (path_join dir imageName)) s)
      | _ \<Rightarrow> start (PResolved m None) s)"

text \<open>One round of the \<open>forEach\<close> callback of \<open>handleMessages\<close>, up to its \<open>await\<close>.\<close>

definition each_message ::
  "IPushoverMessage option \<times> runtime \<Rightarrow> IPushoverMessage \<Rightarrow> IPushoverMessage option \<times> runtime"
where
  "each_message acc m =
     (let lastMessage = (case fst acc of
                           None \<Rightarrow> Some m
                         | Some l \<Rightarrow> if id_msg l < id_msg m then Some m else Some l);
          s = snd acc
      in (lastMessage,
          if id_msg m > lastMessageId s
          then fetchImage m
                 (case icon m of
                    None \<Rightarrow> (if aid m = 1 then ''pushover.png'' else ''default.png'')
                  | Some i \<Rightarrow> if i = [] then (if aid m = 1 then ''pushover.png'' else ''default.png'')
                              else i) s
          else s))"

fun forEach ::
  "IPushoverMessage list \<Rightarrow> IPushoverMessage option \<times> runtime \<Rightarrow> IPushoverMessage option \<times> runtime"
where
  "forEach [] acc = acc"
| "forEach (m # ms) acc = forEach ms (each_message acc m)"

definition handleMessages :: "cont \<Rightarrow> IPushoverMessage list \<Rightarrow> runtime \<Rightarrow> runtime" where
  "handleMessages k messages s =
     (case forEach messages (None, s) of (lastMessage, s1) \<Rightarrow> updateHead k lastMessage s1)"

text \<open>The handlers of the socket events.\<close>

definition on_open :: "runtime \<Rightarrow> runtime" where
  "on_open s = refreshMessages ResumeOpen s"

definition on_message :: "string \<Rightarrow> runtime \<Rightarrow> runtime" where
  "on_message data s =
     (if data = ''!'' then refreshMessages NoCont (emit (Log ''Got new message event'') s)
      else if data = ''#'' then resetKeepAlive s
      else reconnect (emit (Log (''Unknown message: '' @ data)) s))"

definition on_error :: "string \<Rightarrow> runtime \<Rightarrow> runtime" where
  "on_error e s =
     reconnect (emit (LogError e) (emit (LogError ''WebSocket connection error'') s))"

definition on_close :: "runtime \<Rightarrow> runtime" where
  "on_close s = reconnect (emit (Log ''WebSocket connection closed, reconnecting'') s)"

text \<open>
  What happens when an outstanding operation ends. The \<open>stat\<close> of \<open>fileExists\<close> finds the
  file exactly when the cache holds it. An icon response is piped into the cache file
  as soon as it arrives, whatever its status. When \<open>createWriteStream\<close> throws instead,
  the \<open>catch\<close> logs the error and resolves with no icon; the response is then never
  read, so its \<open>end\<close> event does not come.
\<close>

definition complete :: "pending \<Rightarrow> outcome \<Rightarrow> runtime \<Rightarrow> runtime" where
  "complete p r s =
     (case (p, r) of
        (PRefresh k, NetError e) \<Rightarrow>
          settle k (emit (LogError e) (emit (LogError ''Error while refreshing messages'') s))
      | (PRefresh k, Response status finalData parsed) \<Rightarrow>
          if status \<noteq> 200
          then settle k (emit (LogError finalData)
                           (emit (LogError ''Error while refreshing messages'') s))
          else (case parsed of
                  Inr messages \<Rightarrow> handleMessages k messages s
                | Inl thrown \<Rightarrow>
                    settle k (emit (LogError thrown)
                                (emit (LogError ''Failed to parse message payload'') s)))
      | (PAck k, NetError e) \<Rightarrow>
          settle k (emit (LogError e) (emit (LogError ''Error while updating head'') s))
      | (PAck k, Response status finalData parsed) \<Rightarrow>
          if status \<noteq> 200
          then settle k (emit (LogError finalData)
                           (emit (LogError ''Error while updating head'') s))
          else settle k s
      | (PStat m imageName imageFile, Settled) \<Rightarrow>
          if imageFile \<in> set (files s) then notify m (Some imageFile) s
          else start (PIcon m imageName imageFile)
                 (emit (Request (GetIcon imageName))
                    (emit (Log (''Caching image for '' @ imageName)) s))
      | (PResolved m imageFile, Settled) \<Rightarrow> notify m imageFile s
      | (PIcon m imageName imageFile, NetError e) \<Rightarrow>
          notify m None
            (emit (LogError e)
               (emit (LogError (''Request error while caching image '' @ imageName)) s))
      | (PIcon m imageName imageFile, Response status finalData parsed) \<Rightarrow>
          (let s1 = s\<lparr>files := List.insert imageFile (files s)\<rparr>
           in if status \<noteq> 200
              then notify m None
                     (emit (LogErrorNum (''HTTP error while caching image '' @ imageName @ '': '')
                              status) s1)
              else notify m (Some imageFile) s1)
      | (PIcon m imageName imageFile, WriteThrown e) \<Rightarrow>
          notify m None
            (emit (LogError e)
               (emit (LogError (''Error while caching image '' @ imageName)) s))
      | (PNotify, NetError e) \<Rightarrow>
          emit (LogError e) (emit (LogError ''Error while posting to gotify'') s)
      | (PNotify, Response status finalData parsed) \<Rightarrow>
          if status \<noteq> 200
          then emit (LogError finalData) (emit (LogError ''Error while posting to gotify'') s)
          else s
      | (PResume, Settled) \<Rightarrow> open_resumed s
      | _ \<Rightarrow> s)"

text \<open>Which endings an operation can have.\<close>

fun accepts :: "pending \<Rightarrow> outcome \<Rightarrow> bool" where
  "accepts (PStat _ _ _) r = (r = Settled)"
| "accepts (PResolved _ _) r = (r = Settled)"
| "accepts PResume r = (r = Settled)"
| "accepts (PIcon _ _ _) r = (r \<noteq> Settled)"
| "accepts _ r = (case r of NetError _ \<Rightarrow> True | Response _ _ _ \<Rightarrow> True | _ \<Rightarrow> False)"

section \<open>The event loop\<close>

text \<open>
  One event is one turn of the event loop, or something that happens to the process
  between two turns: the wall clock being set to a new reading, time passing (on the
  wall clock and on the monotonic clock alike), the call of \<open>connect\<close> by the entry point,
  an event of a socket, a timer firing, an outstanding operation ending, or the write
  stream of an icon download raising an error. Socket events reach the client only while
  listeners are attached to that socket; a timer fires only while it is pending and not
  before it is due; otherwise the order of events is the environment's choice.

  The write stream that \<open>fetchImage\<close> pipes the response into has no \<open>error\<close> listener.
  When the cache file cannot be opened or written, the stream's error is therefore an
  uncaught exception, and the process ends: no listener, timer or operation of it
  remains.
\<close>

datatype event =
    Clock int
  | Elapse nat
  | CallConnect
  | WsOpen nat
  | WsMessage nat string
  | WsError nat string
  | WsClose nat
  | Timeout nat
  | Done nat outcome
  | WriteFails nat string

definition elapse :: "nat \<Rightarrow> runtime \<Rightarrow> runtime" where
  "elapse d s = s\<lparr>now := now s + int d, uptime := uptime s + d\<rparr>"

definition is_due :: "nat \<Rightarrow> runtime \<Rightarrow> bool" where
  "is_due h s = (case map_of (due s) h of None \<Rightarrow> False | Some t \<Rightarrow> t \<le> uptime s)"

definition fire :: "nat \<Rightarrow> runtime \<Rightarrow> runtime" where
  "fire h s =
     (case map_of (timers s) h of
        None \<Rightarrow> s
      | Some (k, d) \<Rightarrow>
          if \<not> is_due h s then s
          else (let s1 = s\<lparr>timers := filter (\<lambda>e. fst e \<noteq> h) (timers s)\<rparr>
                in case k of
                     KeepAliveTimer \<Rightarrow> keepAlive_expired s1
                   | RetryTimer \<Rightarrow> retry_expired s1))"

definition write_fails :: "nat \<Rightarrow> string \<Rightarrow> runtime \<Rightarrow> runtime" where
  "write_fails i e s =
     (case map_of (inflight s) i of
        Some (PIcon m imageName imageFile) \<Rightarrow>
          (emit (Uncaught e) s)\<lparr>listening := [], timers := [], inflight := [], halted := True\<rparr>
      | _ \<Rightarrow> s)"

definition finish :: "nat \<Rightarrow> outcome \<Rightarrow> runtime \<Rightarrow> runtime" where
  "finish i r s =
     (case map_of (inflight s) i of
        None \<Rightarrow> s
      | Some p \<Rightarrow>
          if accepts p r
          then complete p r (s\<lparr>inflight := filter (\<lambda>e. fst e \<noteq> i) (inflight s)\<rparr>)
          else s)"

fun step :: "event \<Rightarrow> runtime \<Rightarrow> runtime" where
  "step (Clock t) s = s\<lparr>now := t\<rparr>"
| "step (Elapse d) s = elapse d s"
| "step CallConnect s = (if halted s then s else connect s)"
| "step (WsOpen w) s = (if w \<in> set (listening s) then on_open s else s)"
| "step (WsMessage w data) s = (if w \<in> set (listening s) then on_message data s else s)"
| "step (WsError w e) s = (if w \<in> set (listening s) then on_error e s else s)"
| "step (WsClose w) s = (if w \<in> set (listening s) then on_close s else s)"
| "step (Timeout h) s = fire h s"
| "step (Done i r) s = finish i r s"
| "step (WriteFails i e) s = write_fails i e s"

fun run :: "event list \<Rightarrow> runtime \<Rightarrow> runtime" where
  "run [] s = s"
| "run (e # es) s = run es (step e s)"

section \<open>Observations and example inputs\<close>



fun ack_of :: "action \<Rightarrow> int option" where
  "ack_of (Request (PostUpdateHighest i)) = Some i"
| "ack_of _ = None"

definition acks :: "runtime \<Rightarrow> int list" where
  "acks s = List.map_filter ack_of (trace s)"





text \<open>
  The timers as far as the client refers to them, the pending keep-alive timers, and what
  holds of the timers in every state the client can reach: handles are below the next
  one to be handed out, every pending keep-alive timer is the one \<open>keepAlive\<close> holds, and
  no handle is pending twice.
\<close>

definition timer_part :: "runtime \<Rightarrow> (nat \<times> timer_kind \<times> jsnum) list \<times> nat \<times> nat option" where
  "timer_part s = (timers s, nextTimer s, keepAlive s)"

definition keepAlive_timers :: "runtime \<Rightarrow> (nat \<times> timer_kind \<times> jsnum) list" where
  "keepAlive_timers s = filter (\<lambda>e. fst (snd e) = KeepAliveTimer) (timers s)"

definition timer_inv :: "runtime \<Rightarrow> bool" where
  "timer_inv s \<longleftrightarrow>
     list_all (\<lambda>e. fst e < nextTimer s) (timers s)
   \<and> list_all (\<lambda>e. keepAlive s = Some (fst e)) (keepAlive_timers s)
   \<and> distinct (map fst (timers s))"

text \<open>Settings without and with an image cache, a message, and a client whose cursor is set.\<close>

definition example_settings :: ISettings where
  "example_settings =
     \<lparr> deviceId = ''device'', secret = ''secret'', gotifyHost = ''gotify.example.com'',
       gotifyToken = ''token'', imageCache = Absent, wsHost = Absent, iconHost = Absent,
       apiHost = Absent, apiPath = Absent, keepAliveTimeout = Absent \<rparr>"

definition cache_settings :: ISettings where
  "cache_settings = example_settings\<lparr>imageCache := Given ''/cache''\<rparr>"

definition example_message :: "int \<Rightarrow> IPushoverMessage" where
  "example_message i =
     \<lparr> id_msg = i, title = ''title'', message = ''text'', app = ''app'', aid = 2,
       icon = None, date = 0, priority = 0, acked = 0, umid = 0 \<rparr>"

definition cursor_at :: "int \<Rightarrow> runtime" where
  "cursor_at c = (new_Client example_settings)\<lparr>lastMessageId := c\<rparr>"

text \<open>
  A first batch with message 4, which is forwarded and whose acknowledgment succeeds;
  then the batch 5, 3, 9, 1, whose messages 5 and 9 are forwarded and whose
  acknowledgment fails with a request error.
\<close>

definition cursor_four_trace :: "event list" where
  "cursor_four_trace =
     [CallConnect, WsOpen 0,
      Done 0 (Response 200 ''{..}'' (Inr [example_message 4])),
      Done 1 Settled, Done 3 (Response 200 ''{..}'' (Inl [])),
      Done 2 (Response 200 ''{..}'' (Inl [])), Done 4 Settled]"

definition ack_failure_trace :: "event list" where
  "ack_failure_trace =
     [WsMessage 0 ''!'',
      Done 5 (Response 200 ''{..}''
                (Inr [example_message 5, example_message 3, example_message 9,
                      example_message 1])),
      Done 6 Settled, Done 7 Settled,
      Done 8 (NetError ''reset'')]"

text \<open>
  A keep-alive timeout of 3000000000 milliseconds, which is more than a timer of Node.js
  can wait, and a session with it that is closed as soon as it has been started; a
  millisecond later the retry timer fires.
\<close>

definition long_timeout_settings :: ISettings where
  "long_timeout_settings = example_settings\<lparr>keepAliveTimeout := Given 3000000000\<rparr>"





text \<open>
  The socket fails while the \<open>open\<close> handler still awaits the message list, and the wall
  clock has been set back by a minute in between, so that the retry timer is armed with
  twice the keep-alive timeout. The handler then goes on, arms a keep-alive timer, and
  after a minute that timer is due and fires, a minute before the retry timer is due.
\<close>

definition double_retry_trace :: "event list" where
  "double_retry_trace =
     [Clock 100000, CallConnect, WsOpen 0, Clock 40000, WsError 0 ''reset'',
      Done 0 (NetError ''reset''), Done 1 Settled, Elapse 60000, Timeout 1]"

section \<open>Unfolding the model\<close>

lemmas model_defs =
  new_Client_def assign_defaults_def or_default_def example_settings_def cache_settings_def
  long_timeout_settings_def
  example_message_def connect_def emit_def start_def setTimeout_def clearTimeout_def
  resetKeepAlive_def reconnect_def keepAlive_expired_def retry_expired_def refreshMessages_def
  open_resumed_def settle_def notify_def updateHead_def path_join_def normalize_def
  fetchImage_def each_message_def handleMessages_def on_open_def on_message_def on_error_def
  on_close_def complete_def fire_def finish_def of_field_def of_unset_def timer_delay_def
  elapse_def is_due_def write_fails_def Let_def

section \<open>The cursor never decreases\<close>

lemma lastMessageId_emit: "lastMessageId (emit a s) = lastMessageId s"
  by (simp add: emit_def)

lemma lastMessageId_start: "lastMessageId (start p s) = lastMessageId s"
  by (simp add: start_def)

lemma lastMessageId_clearTimeout: "lastMessageId (clearTimeout h s) = lastMessageId s"
  by (simp add: clearTimeout_def split: option.split)

lemma lastMessageId_connect: "lastMessageId (connect s) = lastMessageId s"
  by (simp add: connect_def emit_def)

lemma lastMessageId_resetKeepAlive: "lastMessageId (resetKeepAlive s) = lastMessageId s"
  by (simp add: resetKeepAlive_def setTimeout_def lastMessageId_clearTimeout Let_def)

lemma lastMessageId_reconnect: "lastMessageId (reconnect s) = lastMessageId s"
  by (simp add: reconnect_def setTimeout_def clearTimeout_def emit_def Let_def split: option.split)

lemma lastMessageId_settle: "lastMessageId (settle k s) = lastMessageId s"
  by (simp add: settle_def start_def split: cont.split)

lemma lastMessageId_notify: "lastMessageId (notify m f s) = lastMessageId s"
  by (simp add: notify_def start_def emit_def)

lemma lastMessageId_fetchImage: "lastMessageId (fetchImage m n s) = lastMessageId s"
  by (simp add: fetchImage_def start_def emit_def split: field.split)

lemma lastMessageId_refreshMessages: "lastMessageId (refreshMessages k s) = lastMessageId s"
  by (simp add: refreshMessages_def start_def emit_def)

lemma lastMessageId_open_resumed: "lastMessageId (open_resumed s) = lastMessageId s"
  by (simp add: open_resumed_def Let_def lastMessageId_emit lastMessageId_resetKeepAlive
           split: option.split)

lemmas lastMessageId_kept =
  lastMessageId_emit lastMessageId_start lastMessageId_clearTimeout lastMessageId_connect
  lastMessageId_resetKeepAlive lastMessageId_reconnect lastMessageId_settle
  lastMessageId_notify lastMessageId_fetchImage lastMessageId_refreshMessages
  lastMessageId_open_resumed

lemma updateHead_increases: "lastMessageId s \<le> lastMessageId (updateHead k msg s)"
  by (simp add: updateHead_def lastMessageId_kept split: option.split)

lemma lastMessageId_each_message:
  "lastMessageId (snd (each_message acc m)) = lastMessageId (snd acc)"
  by (simp add: each_message_def Let_def lastMessageId_kept)

lemma lastMessageId_forEach:
  "lastMessageId (snd (forEach ms acc)) = lastMessageId (snd acc)"
  by (induction ms arbitrary: acc) (simp_all add: lastMessageId_each_message)

lemma handleMessages_increases: "lastMessageId s \<le> lastMessageId (handleMessages k ms s)"
proof -
  obtain l s1 where f: "forEach ms (None, s) = (l, s1)"
    by (cases "forEach ms (None, s)")
  have "lastMessageId s1 = lastMessageId s"
    using lastMessageId_forEach [of ms "(None, s)"] f by simp
  then show ?thesis
    using updateHead_increases [of s1 k l] f by (simp add: handleMessages_def)
qed

lemma complete_increases: "lastMessageId s \<le> lastMessageId (complete p r s)"
proof (cases p)
  case (PRefresh k)
  then show ?thesis
    by (cases r) (simp_all add: complete_def lastMessageId_kept handleMessages_increases
                     split: sum.split)
next
  case (PAck k)
  then show ?thesis by (cases r) (simp_all add: complete_def lastMessageId_kept)
next
  case (PStat m n f)
  then show ?thesis by (cases r) (simp_all add: complete_def lastMessageId_kept)
next
  case (PResolved m f)
  then show ?thesis by (cases r) (simp_all add: complete_def lastMessageId_kept)
next
  case (PIcon m n f)
  then show ?thesis by (cases r) (simp_all add: complete_def lastMessageId_kept Let_def)
next
  case PNotify
  then show ?thesis by (cases r) (simp_all add: complete_def lastMessageId_kept)
next
  case PResume
  then show ?thesis by (cases r) (simp_all add: complete_def lastMessageId_kept)
qed

lemma finish_increases: "lastMessageId s \<le> lastMessageId (finish i r s)"
proof (cases "map_of (inflight s) i")
  case None
  then show ?thesis by (simp add: finish_def)
next
  case (Some p)
  show ?thesis
    using complete_increases [of "s\<lparr>inflight := filter (\<lambda>e. fst e \<noteq> i) (inflight s)\<rparr>" p r] Some
    by (simp add: finish_def)
qed

lemma lastMessageId_fire: "lastMessageId (fire h s) = lastMessageId s"
  by (simp add: fire_def keepAlive_expired_def retry_expired_def lastMessageId_kept Let_def
           split: option.split timer_kind.split)

lemma lastMessageId_write_fails: "lastMessageId (write_fails i e s) = lastMessageId s"
  by (simp add: write_fails_def emit_def split: option.split pending.split)

lemma step_increases: "lastMessageId s \<le> lastMessageId (step e s)"
  by (cases e)
     (simp_all add: finish_increases lastMessageId_fire lastMessageId_kept on_open_def
        on_message_def on_error_def on_close_def elapse_def lastMessageId_write_fails)

lemma run_increases: "lastMessageId s \<le> lastMessageId (run es s)"
proof (induction es arbitrary: s)
  case Nil
  show ?case by simp
next
  case (Cons e es)
  have "lastMessageId s \<le> lastMessageId (step e s)" by (rule step_increases)
  also have "\<dots> \<le> lastMessageId (run es (step e s))" by (rule Cons.IH)
  finally show ?case by simp
qed

lemma lastMessageId_complete_PAck:
  "lastMessageId (complete (PAck k) r s) = lastMessageId s"
  by (cases r) (simp_all add: complete_def lastMessageId_kept)

section \<open>What a batch starts\<close>







lemma acks_emit: "acks (emit a s) = acks s @ (case ack_of a of None \<Rightarrow> [] | Some i \<Rightarrow> [i])"
  by (simp add: acks_def emit_def List.map_filter_def split: option.split)

lemma acks_start: "acks (start p s) = acks s"
  by (simp add: acks_def start_def)

lemma acks_settle: "acks (settle k s) = acks s"
  by (simp add: settle_def acks_start split: cont.split)


lemma acks_cursor: "acks (s\<lparr>lastMessageId := c\<rparr>) = acks s"
  by (simp add: acks_def)

lemma acks_updateHead:
  "acks (updateHead k l s) =
     acks s @ (case l of None \<Rightarrow> []
               | Some m \<Rightarrow> if id_msg m \<le> lastMessageId s then [] else [id_msg m])"
  by (simp add: updateHead_def acks_settle acks_start acks_emit acks_cursor
        split: option.split)

lemma snd_each_message:
  "snd (each_message (l, s) m) =
     (if lastMessageId s < id_msg m
      then fetchImage m
             (case icon m of
                None \<Rightarrow> (if aid m = 1 then ''pushover.png'' else ''default.png'')
              | Some i \<Rightarrow> if i = [] then (if aid m = 1 then ''pushover.png'' else ''default.png'')
                          else i) s
      else s)"
  by (simp add: each_message_def Let_def)










section \<open>The image cache only grows\<close>





























section \<open>Every lookup ends in a post\<close>






section \<open>At most one keep-alive timer\<close>

lemma timer_inv_cong: "timer_part s' = timer_part s \<Longrightarrow> timer_inv s' = timer_inv s"
  by (simp add: timer_inv_def timer_part_def keepAlive_timers_def)

lemma timer_part_emit: "timer_part (emit a s) = timer_part s"
  by (simp add: timer_part_def emit_def)

lemma timer_part_start: "timer_part (start p s) = timer_part s"
  by (simp add: timer_part_def start_def)

lemma timer_part_connect: "timer_part (connect s) = timer_part s"
  by (simp add: timer_part_def connect_def emit_def)

lemma timer_part_settle: "timer_part (settle k s) = timer_part s"
  by (simp add: settle_def timer_part_start split: cont.split)

lemma timer_part_notify: "timer_part (notify m f s) = timer_part s"
  by (simp add: notify_def timer_part_start timer_part_emit)

lemma timer_part_fetchImage: "timer_part (fetchImage m n s) = timer_part s"
  by (simp add: fetchImage_def timer_part_start timer_part_emit split: field.split)

lemma timer_part_refreshMessages: "timer_part (refreshMessages k s) = timer_part s"
  by (simp add: refreshMessages_def timer_part_start timer_part_emit)

lemma timer_part_cursor: "timer_part (s\<lparr>lastMessageId := c\<rparr>) = timer_part s"
  by (simp add: timer_part_def)

lemma timer_part_files: "timer_part (s\<lparr>files := fs\<rparr>) = timer_part s"
  by (simp add: timer_part_def)

lemma timer_part_inflight: "timer_part (s\<lparr>inflight := ops\<rparr>) = timer_part s"
  by (simp add: timer_part_def)

lemma timer_part_updateHead: "timer_part (updateHead k msg s) = timer_part s"
  by (simp add: updateHead_def timer_part_settle timer_part_start timer_part_emit
        timer_part_cursor split: option.split)

lemmas timer_part_kept =
  timer_part_emit timer_part_start timer_part_connect timer_part_settle timer_part_notify
  timer_part_fetchImage timer_part_refreshMessages timer_part_cursor timer_part_files
  timer_part_inflight timer_part_updateHead

lemma timer_part_each_message: "timer_part (snd (each_message acc m)) = timer_part (snd acc)"
  by (simp add: each_message_def Let_def timer_part_kept)

lemma timer_part_forEach: "timer_part (snd (forEach ms acc)) = timer_part (snd acc)"
  by (induction ms arbitrary: acc) (simp_all add: timer_part_each_message)

lemma timer_part_handleMessages: "timer_part (handleMessages k ms s) = timer_part s"
proof -
  obtain l s1 where f: "forEach ms (None, s) = (l, s1)"
    by (cases "forEach ms (None, s)")
  have "timer_part s1 = timer_part s" using timer_part_forEach [of ms "(None, s)"] f by simp
  then show ?thesis using f by (simp add: handleMessages_def timer_part_updateHead)
qed

lemma timer_inv_emit: "timer_inv (emit a s) = timer_inv s"
  by (rule timer_inv_cong) (rule timer_part_emit)

lemma timer_inv_connect: "timer_inv (connect s) = timer_inv s"
  by (rule timer_inv_cong) (rule timer_part_connect)

lemma timer_inv_refreshMessages: "timer_inv (refreshMessages k s) = timer_inv s"
  by (rule timer_inv_cong) (rule timer_part_refreshMessages)

lemma timer_inv_inflight: "timer_inv (s\<lparr>inflight := ops\<rparr>) = timer_inv s"
  by (rule timer_inv_cong) (rule timer_part_inflight)

lemma timer_inv_resetKeepAlive: "timer_inv s \<Longrightarrow> timer_inv (resetKeepAlive s)"
  by (auto simp: timer_inv_def keepAlive_timers_def resetKeepAlive_def clearTimeout_def
        setTimeout_def Let_def list_all_iff distinct_map_filter split: option.split)

lemma timer_inv_reconnect: "timer_inv s \<Longrightarrow> timer_inv (reconnect s)"
  by (auto simp: timer_inv_def keepAlive_timers_def reconnect_def clearTimeout_def
        setTimeout_def emit_def Let_def list_all_iff distinct_map_filter split: option.split)

lemma timer_inv_remove:
  "timer_inv s \<Longrightarrow> timer_inv (s\<lparr>timers := filter (\<lambda>e. fst e \<noteq> h) (timers s)\<rparr>)"
  by (auto simp: timer_inv_def keepAlive_timers_def list_all_iff distinct_map_filter)

lemma timer_inv_clearTimeout: "timer_inv s \<Longrightarrow> timer_inv (clearTimeout h s)"
  by (simp add: clearTimeout_def timer_inv_remove split: option.split)

lemma timer_inv_open_resumed: "timer_inv s \<Longrightarrow> timer_inv (open_resumed s)"
proof -
  assume "timer_inv s"
  then have "timer_inv (emit (Log ''WebSocket connected, waiting for messages'') s)"
    by (simp add: timer_inv_emit)
  then have "timer_inv (resetKeepAlive (emit (Log ''WebSocket connected, waiting for messages'') s))"
    by (rule timer_inv_resetKeepAlive)
  then show ?thesis
    by (simp add: open_resumed_def Let_def timer_inv_emit split: option.split)
qed

lemma timer_part_complete:
  "p \<noteq> PResume \<Longrightarrow> timer_part (complete p r s) = timer_part s"
proof (cases p)
  case (PRefresh k)
  then show ?thesis
    by (cases r) (simp_all add: complete_def timer_part_kept timer_part_handleMessages
                    split: sum.split)
next
  case (PAck k)
  then show ?thesis by (cases r) (simp_all add: complete_def timer_part_kept)
next
  case (PStat m n f)
  then show ?thesis by (cases r) (simp_all add: complete_def timer_part_kept)
next
  case (PResolved m f)
  then show ?thesis by (cases r) (simp_all add: complete_def timer_part_kept)
next
  case (PIcon m n f)
  then show ?thesis by (cases r) (simp_all add: complete_def timer_part_kept Let_def)
next
  case PNotify
  then show ?thesis by (cases r) (simp_all add: complete_def timer_part_kept)
next
  case PResume
  assume "p \<noteq> PResume"
  with PResume show ?thesis by simp
qed

lemma timer_inv_complete: "timer_inv s \<Longrightarrow> timer_inv (complete p r s)"
proof (cases "p = PResume")
  case True
  assume "timer_inv s"
  then show ?thesis using True by (cases r) (simp_all add: complete_def timer_inv_open_resumed)
next
  case False
  assume "timer_inv s"
  then show ?thesis
    using timer_inv_cong [OF timer_part_complete [OF False, of r s]] by simp
qed

lemma timer_inv_finish: "timer_inv s \<Longrightarrow> timer_inv (finish i r s)"
proof (cases "map_of (inflight s) i")
  case None
  then show "timer_inv s \<Longrightarrow> timer_inv (finish i r s)" by (simp add: finish_def)
next
  case (Some p)
  assume i: "timer_inv s"
  then have "timer_inv (s\<lparr>inflight := filter (\<lambda>e. fst e \<noteq> i) (inflight s)\<rparr>)"
    by (simp add: timer_inv_inflight)
  then show ?thesis using Some i by (simp add: finish_def timer_inv_complete)
qed

lemma timer_inv_fire: "timer_inv s \<Longrightarrow> timer_inv (fire h s)"
proof (cases "map_of (timers s) h")
  case None
  then show "timer_inv s \<Longrightarrow> timer_inv (fire h s)" by (simp add: fire_def)
next
  case (Some kd)
  assume i: "timer_inv s"
  then have r: "timer_inv (s\<lparr>timers := filter (\<lambda>e. fst e \<noteq> h) (timers s)\<rparr>)"
    by (rule timer_inv_remove)
  obtain k d where kd: "kd = (k, d)" by (cases kd)
  show ?thesis
  proof (cases k)
    case KeepAliveTimer
    have "timer_inv (emit (Log ''Did not receive keep alive message in time, reconnecting'')
                       (s\<lparr>timers := filter (\<lambda>e. fst e \<noteq> h) (timers s)\<rparr>))"
      using r by (simp add: timer_inv_emit)
    then have "timer_inv (keepAlive_expired (s\<lparr>timers := filter (\<lambda>e. fst e \<noteq> h) (timers s)\<rparr>))"
      unfolding keepAlive_expired_def by (rule timer_inv_reconnect)
    then show ?thesis using Some kd KeepAliveTimer i by (simp add: fire_def)
  next
    case RetryTimer
    have "timer_inv (clearTimeout (retry (s\<lparr>timers := filter (\<lambda>e. fst e \<noteq> h) (timers s)\<rparr>))
                       (s\<lparr>timers := filter (\<lambda>e. fst e \<noteq> h) (timers s)\<rparr>))"
      using r by (rule timer_inv_clearTimeout)
    then have "timer_inv (retry_expired (s\<lparr>timers := filter (\<lambda>e. fst e \<noteq> h) (timers s)\<rparr>))"
      unfolding retry_expired_def by (simp add: timer_inv_connect)
    then show ?thesis using Some kd RetryTimer i by (simp add: fire_def)
  qed
qed

lemma timer_inv_on_message: "timer_inv s \<Longrightarrow> timer_inv (on_message d s)"
  by (simp add: on_message_def timer_inv_resetKeepAlive timer_inv_reconnect timer_inv_emit
        timer_inv_refreshMessages)

lemma timer_inv_on_error: "timer_inv s \<Longrightarrow> timer_inv (on_error x s)"
  by (simp add: on_error_def timer_inv_reconnect timer_inv_emit)

lemma timer_inv_on_close: "timer_inv s \<Longrightarrow> timer_inv (on_close s)"
  by (simp add: on_close_def timer_inv_reconnect timer_inv_emit)

lemma timer_inv_clock: "timer_inv (s\<lparr>now := t\<rparr>) = timer_inv s"
  by (rule timer_inv_cong) (simp add: timer_part_def)

lemma timer_inv_elapse: "timer_inv (elapse d s) = timer_inv s"
  by (rule timer_inv_cong) (simp add: timer_part_def elapse_def)

lemma timer_inv_write_fails: "timer_inv s \<Longrightarrow> timer_inv (write_fails i e s)"
  by (simp add: write_fails_def emit_def timer_inv_def keepAlive_timers_def
        split: option.split pending.split)

lemma timer_inv_step: "timer_inv s \<Longrightarrow> timer_inv (step e s)"
  by (cases e)
     (simp_all add: timer_inv_clock timer_inv_connect on_open_def timer_inv_refreshMessages
        timer_inv_on_message timer_inv_on_error timer_inv_on_close timer_inv_fire
        timer_inv_finish timer_inv_elapse timer_inv_write_fails)

lemma timer_inv_run: "timer_inv s \<Longrightarrow> timer_inv (run es s)"
  by (induction es arbitrary: s) (simp_all add: timer_inv_step)

lemma timer_inv_new_Client: "timer_inv (new_Client st)"
  by (simp add: timer_inv_def keepAlive_timers_def new_Client_def)

lemma same_handle_once:
  "distinct (map fst xs) \<Longrightarrow> list_all (\<lambda>e. fst e = h) xs \<Longrightarrow> length xs \<le> 1"
proof (cases xs)
  case Nil
  then show ?thesis by simp
next
  case (Cons x ys)
  assume d: "distinct (map fst xs)" and a: "list_all (\<lambda>e. fst e = h) xs"
  have "ys = []"
  proof (cases ys)
    case Nil
    then show ?thesis .
  next
    case (Cons y zs)
    then have "fst x = fst y" using a \<open>xs = x # ys\<close> by simp
    then show ?thesis using d \<open>xs = x # ys\<close> Cons by simp
  qed
  then show ?thesis using Cons by simp
qed

lemma keepAlive_timers_once: "timer_inv s \<Longrightarrow> length (keepAlive_timers s) \<le> 1"
proof (cases "keepAlive s")
  case None
  assume "timer_inv s"
  then have "list_all (\<lambda>e. False) (keepAlive_timers s)" using None by (simp add: timer_inv_def)
  then have "keepAlive_timers s = []" by (cases "keepAlive_timers s") simp_all
  then show ?thesis by simp
next
  case (Some h)
  assume i: "timer_inv s"
  have "distinct (map fst (keepAlive_timers s))"
    using i by (simp add: timer_inv_def keepAlive_timers_def distinct_map_filter)
  moreover have "list_all (\<lambda>e. fst e = h) (keepAlive_timers s)"
    using i Some by (auto simp: timer_inv_def list_all_iff)
  ultimately show ?thesis by (rule same_handle_once)
qed

lemma keepAlive_timers_run: "length (keepAlive_timers (run es (new_Client st))) \<le> 1"
  by (rule keepAlive_timers_once) (rule timer_inv_run, rule timer_inv_new_Client)

section \<open>The retry timer calls \<open>connect\<close>\<close>











section \<open>The claims\<close>

subsection \<open>C1: the acknowledgment and the cursor\<close>

text \<open>
  Claim C1 says that \<open>lastMessageId\<close> advances only after the acknowledgment request has
  succeeded, and that it keeps its prior value when that request fails. \<open>updateHead\<close>
  assigns \<open>lastMessageId\<close> before it issues the request, and its two failure handlers
  only log. What holds is this: for a message whose id is above the cursor, the cursor is
  the new id as soon as \<open>updateHead\<close> has run, with the acknowledgment request issued and
  outstanding; it is still the new id when that request ends, however it ends; and it is
  at least the new id after any further events.
\<close>

theorem updateHead_advances_at_once:
  assumes "lastMessageId s < id_msg m"
  shows "lastMessageId (updateHead k (Some m) s) = id_msg m
       \<and> inflight (updateHead k (Some m) s) = inflight s @ [(nextOp s, PAck k)]
       \<and> acks (updateHead k (Some m) s) = acks s @ [id_msg m]
       \<and> (\<forall>r. lastMessageId (complete (PAck k) r (updateHead k (Some m) s)) = id_msg m)
       \<and> (\<forall>es. id_msg m \<le> lastMessageId (run es (updateHead k (Some m) s)))"
proof -
  have 1: "lastMessageId (updateHead k (Some m) s) = id_msg m"
    using assms by (simp add: updateHead_def lastMessageId_kept)
  have 2: "inflight (updateHead k (Some m) s) = inflight s @ [(nextOp s, PAck k)]"
    using assms by (simp add: updateHead_def start_def emit_def)
  have 3: "acks (updateHead k (Some m) s) = acks s @ [id_msg m]"
    using assms by (simp add: acks_updateHead)
  have 4: "\<forall>r. lastMessageId (complete (PAck k) r (updateHead k (Some m) s)) = id_msg m"
    using 1 by (simp add: lastMessageId_complete_PAck)
  have 5: "\<forall>es. id_msg m \<le> lastMessageId (run es (updateHead k (Some m) s))"
    using run_increases [of "updateHead k (Some m) s"] 1 by simp
  show ?thesis using 1 2 3 4 5 by blast
qed

text \<open>The theorem at cursor 4 and message 9, with the acknowledgment failing.\<close>

theorem updateHead_advances_at_once_witness:
  "lastMessageId (cursor_at 4) < id_msg (example_message 9)
   \<and> lastMessageId (updateHead NoCont (Some (example_message 9)) (cursor_at 4)) = 9
   \<and> inflight (updateHead NoCont (Some (example_message 9)) (cursor_at 4)) = [(0, PAck NoCont)]
   \<and> lastMessageId (complete (PAck NoCont) (NetError ''reset'')
        (updateHead NoCont (Some (example_message 9)) (cursor_at 4))) = 9"
proof -
  have h: "lastMessageId (cursor_at 4) < id_msg (example_message 9)"
    by (simp add: cursor_at_def example_message_def new_Client_def)
  show ?thesis
    using h updateHead_advances_at_once [OF h, of NoCont]
    by (simp add: cursor_at_def example_message_def new_Client_def)
qed

text \<open>
  The run that refutes the claim as stated: after a first batch the cursor is 4; the
  batch 5, 3, 9, 1 arrives and its acknowledgment fails with a request error, which is
  logged; the cursor is 9, not 4.
\<close>

theorem updateHead_failure_counterexample:
  "lastMessageId (run cursor_four_trace (new_Client example_settings)) = 4
   \<and> inflight (run cursor_four_trace (new_Client example_settings)) = []
   \<and> lastMessageId (run (cursor_four_trace @ ack_failure_trace) (new_Client example_settings)) = 9
   \<and> inflight (run (cursor_four_trace @ ack_failure_trace) (new_Client example_settings))
       = [(9, PNotify), (10, PNotify)]
   \<and> acks (run (cursor_four_trace @ ack_failure_trace) (new_Client example_settings)) = [4, 9]
   \<and> LogError ''Error while updating head''
       \<in> set (trace (run (cursor_four_trace @ ack_failure_trace) (new_Client example_settings)))"
  by (simp add: cursor_four_trace_def ack_failure_trace_def model_defs acks_def
        List.map_filter_simps)

subsection \<open>C2: what a batch forwards and acknowledges\<close>



subsection \<open>C3: \<open>updateHead\<close> without effect, and the cursor over a lifetime\<close>

text \<open>
  Claim C3: called with no message, or with one whose id is not above the cursor,
  \<open>updateHead\<close> does nothing but resolve its promise: no request, no log line, the
  cursor as it was, and the very same state when nobody waits for the promise. Hence no
  event ever lowers the cursor, no sequence of events does, and a client starts at 0 and
  stays at or above it.
\<close>

theorem updateHead_noop_cursor_monotone:
  "(msg = None \<or> (\<exists>m. msg = Some m \<and> id_msg m \<le> lastMessageId s) \<longrightarrow>
        updateHead k msg s = settle k s
      \<and> updateHead NoCont msg s = s
      \<and> trace (updateHead k msg s) = trace s
      \<and> lastMessageId (updateHead k msg s) = lastMessageId s)
   \<and> lastMessageId s \<le> lastMessageId (step e s)
   \<and> lastMessageId s \<le> lastMessageId (run es s)
   \<and> lastMessageId (new_Client st) = 0
   \<and> 0 \<le> lastMessageId (run es (new_Client st))"
proof -
  have 1: "msg = None \<or> (\<exists>m. msg = Some m \<and> id_msg m \<le> lastMessageId s) \<longrightarrow>
        updateHead k msg s = settle k s
      \<and> updateHead NoCont msg s = s
      \<and> trace (updateHead k msg s) = trace s
      \<and> lastMessageId (updateHead k msg s) = lastMessageId s"
    by (auto simp: updateHead_def settle_def start_def split: cont.split)
  have 2: "lastMessageId (new_Client st) = 0" by (simp add: new_Client_def)
  have 3: "0 \<le> lastMessageId (run es (new_Client st))"
    using run_increases [of "new_Client st" es] 2 by simp
  show ?thesis using 1 2 3 step_increases [of s e] run_increases [of s es] by blast
qed

text \<open>The theorem at cursor 4, with message 3 and with no message.\<close>

theorem updateHead_noop_cursor_monotone_witness:
  "id_msg (example_message 3) \<le> lastMessageId (cursor_at 4)
   \<and> updateHead NoCont (Some (example_message 3)) (cursor_at 4) = cursor_at 4
   \<and> updateHead NoCont None (cursor_at 4) = cursor_at 4
   \<and> lastMessageId (cursor_at 4) \<le> lastMessageId (step (Done 0 Settled) (cursor_at 4))"
  using updateHead_noop_cursor_monotone
          [of "Some (example_message 3)" "cursor_at 4" NoCont "Done 0 Settled"]
        updateHead_noop_cursor_monotone [of None "cursor_at 4" NoCont]
  by (simp add: cursor_at_def model_defs)

subsection \<open>C4: the priority table\<close>

text \<open>
  Claim C4: \<open>gotifyPriority\<close> maps the Pushover priority -2 to 1, -1 to 3, 0 to 5 and 1
  to 10, and every other integer, 7 among them, to 5.
\<close>

theorem gotifyPriority_table:
  "gotifyPriority (- 2) = 1 \<and> gotifyPriority (- 1) = 3 \<and> gotifyPriority 0 = 5 \<and>
   gotifyPriority 1 = 10 \<and> gotifyPriority 7 = 5 \<and>
   (\<forall>p. p \<noteq> - 2 \<and> p \<noteq> - 1 \<and> p \<noteq> 0 \<and> p \<noteq> 1 \<longrightarrow> gotifyPriority p = 5)"
  by simp

text \<open>The last part of the table at priority 7.\<close>

theorem gotifyPriority_table_witness:
  "(7::int) \<noteq> - 2 \<and> (7::int) \<noteq> - 1 \<and> (7::int) \<noteq> 0 \<and> (7::int) \<noteq> 1 \<and> gotifyPriority 7 = 5"
  using gotifyPriority_table by simp

subsection \<open>C5: the delay of the reconnect\<close>




subsection \<open>C6: the image cache\<close>




subsection \<open>C7: the frames of the stream\<close>



subsection \<open>C8: \<open>connect\<close> with a session at hand\<close>

text \<open>
  Claim C8: in a state that has a \<open>wsClient\<close>, \<open>connect\<close> returns the state as it is,
  whether called directly or by the entry point's event: no socket is made and nothing
  else changes. Calling it twice is the same as calling it once.
\<close>

theorem connect_idempotent:
  "(wsClient s \<noteq> None \<longrightarrow> connect s = s \<and> step CallConnect s = s)
   \<and> connect (connect s) = connect s"
  by (simp add: connect_def emit_def)

text \<open>The theorem at a client that has just connected.\<close>

theorem connect_idempotent_witness:
  "wsClient (connect (new_Client example_settings)) \<noteq> None
   \<and> connect (connect (new_Client example_settings)) = connect (new_Client example_settings)
   \<and> step CallConnect (connect (new_Client example_settings)) = connect (new_Client example_settings)"
  using connect_idempotent [of "connect (new_Client example_settings)"]
  by (simp add: connect_def emit_def)

subsection \<open>C9: one timer of each kind\<close>

text \<open>
  Claim C9 says that arming a keep-alive or a retry timer first cancels a pending timer
  of the same kind, so that at most one of each kind is pending. \<open>resetKeepAlive\<close> does
  so, and in every run of a new client at most one keep-alive timer is pending.
  \<open>reconnect\<close> cancels the keep-alive timer, but arms its retry timer without cancelling
  the one it holds; its \<open>clearTimeout(this.retry)\<close> stands inside the callback, where it
  runs only when the timer fires. Called twice, \<open>reconnect\<close> leaves two retry timers
  pending, where \<open>resetKeepAlive\<close> called twice leaves one keep-alive timer; and two
  retry timers are pending after the run in which the socket fails while the \<open>open\<close>
  handler awaits the message list and the keep-alive timer armed by the resumed handler
  expires before the retry timer.
\<close>

theorem reconnect_second_retry_timer:
  "timers (run double_retry_trace (new_Client example_settings))
     = [(0, RetryTimer, Num 120000), (2, RetryTimer, Num 60000)]
   \<and> retry (run double_retry_trace (new_Client example_settings)) = Some 2
   \<and> timers (reconnect (reconnect (connect (new_Client example_settings))))
       = [(0, RetryTimer, Num 60000), (1, RetryTimer, Num 60000)]
   \<and> timers (resetKeepAlive (resetKeepAlive (connect (new_Client example_settings))))
       = [(1, KeepAliveTimer, Num 60000)]
   \<and> length (keepAlive_timers (run es (new_Client st))) \<le> 1"
proof -
  have "timers (run double_retry_trace (new_Client example_settings))
     = [(0, RetryTimer, Num 120000), (2, RetryTimer, Num 60000)]
   \<and> retry (run double_retry_trace (new_Client example_settings)) = Some 2
   \<and> timers (reconnect (reconnect (connect (new_Client example_settings))))
       = [(0, RetryTimer, Num 60000), (1, RetryTimer, Num 60000)]
   \<and> timers (resetKeepAlive (resetKeepAlive (connect (new_Client example_settings))))
       = [(1, KeepAliveTimer, Num 60000)]"
    by (simp add: double_retry_trace_def model_defs)
  then show ?thesis using keepAlive_timers_run [of es st] by simp
qed

subsection \<open>C10: the default icon\<close>

text \<open>
  Claim C10: for a message above the cursor, the \<open>forEach\<close> callback of
  \<open>handleMessages\<close> calls \<open>fetchImage\<close> with \<open>pushover.png\<close> when the message has no
  icon, or an empty one, and its application id is 1; with \<open>default.png\<close> when it has
  no icon, or an empty one, and any other application id; and with the icon itself when
  it has a non-empty one.
\<close>

theorem each_message_icon:
  assumes "lastMessageId s < id_msg m"
  shows "((icon m = None \<or> icon m = Some []) \<and> aid m = 1 \<longrightarrow>
            snd (each_message (l, s) m) = fetchImage m ''pushover.png'' s)
       \<and> ((icon m = None \<or> icon m = Some []) \<and> aid m \<noteq> 1 \<longrightarrow>
            snd (each_message (l, s) m) = fetchImage m ''default.png'' s)
       \<and> (\<forall>i. icon m = Some i \<and> i \<noteq> [] \<longrightarrow>
            snd (each_message (l, s) m) = fetchImage m i s)"
  using assms by (auto simp: snd_each_message)

text \<open>
  The theorem with a cache directory, where the name shows in the file looked up: a
  message of application 1 without icon, one of application 2 without icon, and one with
  the icon \<open>a.png\<close>.
\<close>

theorem each_message_icon_witness:
  "lastMessageId (new_Client cache_settings) < id_msg ((example_message 1)\<lparr>aid := 1\<rparr>)
   \<and> icon ((example_message 1)\<lparr>aid := 1\<rparr>) = None \<and> aid ((example_message 1)\<lparr>aid := 1\<rparr>) = 1
   \<and> trace (snd (each_message (None, new_Client cache_settings) ((example_message 1)\<lparr>aid := 1\<rparr>)))
       = [Stat ''/cache/pushover.png'']
   \<and> trace (handleMessages NoCont [example_message 1] (new_Client cache_settings))
       = [Stat ''/cache/default.png'', LogNum ''Updating head position to '' 1,
          Request (PostUpdateHighest 1)]
   \<and> trace (handleMessages NoCont [(example_message 1)\<lparr>icon := Some ''a.png''\<rparr>]
               (new_Client cache_settings))
       = [Stat ''/cache/a.png'', LogNum ''Updating head position to '' 1,
          Request (PostUpdateHighest 1)]"
proof -
  have h: "lastMessageId (new_Client cache_settings) < id_msg ((example_message 1)\<lparr>aid := 1\<rparr>)"
    by (simp add: model_defs)
  show ?thesis
    using h each_message_icon [OF h, of None]
    by (simp add: model_defs)
qed

end
